theory Spec2Isabelle
  imports Main
begin

section \<open>The syntax-tree linter of \<^verbatim>\<open>runtime/ast_linter.py\<close>\<close>

text \<open>
  A shallow embedding of the linter: the finding model, the syntax-tree visitor with its
  alias map, the per-file analyzer and the driver with its exit code.

  Two things are Python's and not the repository's, and enter the model as follows.
  \<^item> The parser \<^verbatim>\<open>ast.parse\<close> and the file read: what they give for a path is an input of
    the model (\<open>file_outcome\<close>): the tree, a \<^verbatim>\<open>SyntaxError\<close>, or any other exception.
  \<^item> \<^verbatim>\<open>os.path.normpath\<close>, \<^verbatim>\<open>os.path.isabs\<close>, \<^verbatim>\<open>str.split\<close>, \<^verbatim>\<open>str.startswith\<close>: written
    out after the POSIX implementation of the standard library.
  Resource limits of the interpreter (recursion depth, memory) are not modelled.
\<close>

subsection \<open>Strings\<close>

definition startswith :: "string \<Rightarrow> string \<Rightarrow> bool" where
  "startswith s p = (take (length p) s = p)"

text \<open>\<^verbatim>\<open>s.split(sep)\<close> for a one-character separator: never the empty list.\<close>

fun str_split :: "char \<Rightarrow> string \<Rightarrow> string list" where
  "str_split sep [] = [[]]"
| "str_split sep (c # cs) =
     (if c = sep then [] # str_split sep cs
      else (case str_split sep cs of
              [] \<Rightarrow> [[c]]
            | w # ws \<Rightarrow> (c # w) # ws))"

text \<open>\<^verbatim>\<open>s.split(".")[0]\<close>: the text before the first dot.\<close>

definition top_segment :: "string \<Rightarrow> string" where
  "top_segment s = (case str_split CHR ''.'' s of [] \<Rightarrow> [] | w # ws \<Rightarrow> w)"

fun join :: "string \<Rightarrow> string list \<Rightarrow> string" where
  "join sep [] = []"
| "join sep [w] = w"
| "join sep (w # ws) = w @ sep @ join sep ws"

subsection \<open>\<^verbatim>\<open>os.path\<close> (POSIX)\<close>

definition isabs :: "string \<Rightarrow> bool" where
  "isabs s = startswith s ''/''"

text \<open>One or two leading slashes are kept, three or more count as one.\<close>

definition initial_slashes :: "string \<Rightarrow> nat" where
  "initial_slashes p =
     (if startswith p ''/'' then
        (if startswith p ''//'' \<and> \<not> startswith p ''///'' then 2 else 1)
      else 0)"

text \<open>The loop of \<^verbatim>\<open>normpath\<close> over the components, \<open>new\<close> being \<^verbatim>\<open>new_comps\<close>.\<close>

fun norm_comps :: "nat \<Rightarrow> string list \<Rightarrow> string list \<Rightarrow> string list" where
  "norm_comps init new [] = new"
| "norm_comps init new (seg # comps) =
     (if seg = [] \<or> seg = ''.'' then norm_comps init new comps
      else if seg \<noteq> ''..'' \<or> (init = 0 \<and> new = []) \<or> (new \<noteq> [] \<and> last new = ''..'')
        then norm_comps init (new @ [seg]) comps
      else if new \<noteq> [] then norm_comps init (butlast new) comps
      else norm_comps init new comps)"

definition normpath :: "string \<Rightarrow> string" where
  "normpath p =
     (if p = [] then ''.''
      else
        (let init = initial_slashes p;
             comps = norm_comps init [] (str_split CHR ''/'' p);
             r = replicate init CHR ''/'' @ join ''/'' comps
         in if r = [] then ''.'' else r))"

subsection \<open>Findings\<close>

datatype level = ERROR | WARN

text \<open>
  Class \<^verbatim>\<open>Finding\<close>. Line and column are \<^verbatim>\<open>int\<close> in the annotations, but the parse-failure
  path stores whatever the exception carries, which may be Python's \<^verbatim>\<open>None\<close>: hence
  \<open>int option\<close>, \<open>None\<close> standing for \<^verbatim>\<open>None\<close>.
\<close>

record finding =
  path :: string
  lineno :: "int option"
  col :: "int option"
  level :: level
  code :: string
  msg :: string

definition DEFAULT_DENY_IMPORTS :: "string set" where
  "DEFAULT_DENY_IMPORTS =
     {''socket'', ''requests'', ''subprocess'', ''multiprocessing'',
      ''ftplib'', ''paramiko'', ''psutil''}"

text \<open>Pairs (module, function); the module of a builtin may be \<^verbatim>\<open>None\<close>.\<close>

definition DANGEROUS_CALLS :: "(string option \<times> string) set" where
  "DANGEROUS_CALLS =
     {(Some ''os'', ''system''), (Some ''os'', ''popen''),
      (Some ''builtins'', ''eval''), (Some ''builtins'', ''exec'')}"

subsection \<open>Syntax trees\<close>

text \<open>
  The node kinds the visitor inspects, and \<open>Other\<close> for every other kind with its child
  nodes in field order. \<open>Import\<close>, \<open>ImportFrom\<close> and \<open>Call\<close> carry \<^verbatim>\<open>lineno\<close> and
  \<^verbatim>\<open>col_offset\<close>, which the parser sets on every statement and expression. The children
  of a node that can hold no import and no call (the \<^verbatim>\<open>alias\<close> nodes of an import, the
  \<^verbatim>\<open>ctx\<close> of a name or attribute) are left out. The parser gives every literal as a
  \<^verbatim>\<open>Constant\<close>; the test \<^verbatim>\<open>isinstance(x, (ast.Str, ast.Constant))\<close> holds for exactly those
  nodes, and \<^verbatim>\<open>.s\<close> and \<^verbatim>\<open>.value\<close> both read the literal's value.
\<close>

datatype const_value =
    CStr string | CBytes string | CInt int | CBool bool | CNone | CEllipsis
  | CNumber string

datatype ast_alias = Alias (alias_name: string) (alias_asname: "string option")

datatype node =
    Import int int "ast_alias list"
  | ImportFrom int int "string option" "ast_alias list"
  | Call int int node "node list" "keyword list"
  | Name string
  | Attribute node string
  | Constant const_value
  | Other "node list"
and keyword = Keyword "string option" node

subsection \<open>The visitor\<close>

record LintVisitor =
  file_path :: string
  deny_imports :: "string set"
  project_root :: string
  artifacts_root :: string
  findings :: "finding list"
  alias_map :: "string \<rightharpoonup> string"

definition LintVisitor_init :: "string \<Rightarrow> string set \<Rightarrow> string \<Rightarrow> string \<Rightarrow> LintVisitor" where
  "LintVisitor_init p deny proot aroot =
     \<lparr>file_path = p, deny_imports = deny, project_root = normpath proot,
      artifacts_root = normpath aroot, findings = [], alias_map = Map.empty\<rparr>"

definition mk_finding :: "string \<Rightarrow> int \<Rightarrow> int \<Rightarrow> level \<Rightarrow> string \<Rightarrow> string \<Rightarrow> finding" where
  "mk_finding p l c lv cd m =
     \<lparr>path = p, lineno = Some l, col = Some c, level = lv, code = cd, msg = m\<rparr>"

definition error :: "LintVisitor \<Rightarrow> int \<Rightarrow> int \<Rightarrow> string \<Rightarrow> string \<Rightarrow> LintVisitor" where
  "error v l c cd m = v\<lparr>findings := findings v @ [mk_finding (file_path v) l c ERROR cd m]\<rparr>"

definition warn :: "LintVisitor \<Rightarrow> int \<Rightarrow> int \<Rightarrow> string \<Rightarrow> string \<Rightarrow> LintVisitor" where
  "warn v l c cd m = v\<lparr>findings := findings v @ [mk_finding (file_path v) l c WARN cd m]\<rparr>"

definition bind :: "string \<Rightarrow> string \<Rightarrow> LintVisitor \<Rightarrow> LintVisitor" where
  "bind k m v = v\<lparr>alias_map := (alias_map v)(k \<mapsto> m)\<rparr>"

definition imp_msg :: "string \<Rightarrow> string" where
  "imp_msg m = ''Disallowed import: '' @ [CHR 0x27] @ m @ [CHR 0x27]"

text \<open>The body of the loop of \<^verbatim>\<open>visit_Import\<close>, for one alias.\<close>

definition import_alias :: "int \<Rightarrow> int \<Rightarrow> ast_alias \<Rightarrow> LintVisitor \<Rightarrow> LintVisitor" where
  "import_alias l c a v =
     (let m = top_segment (alias_name a);
          v1 = (if m \<in> deny_imports v then error v l c ''IMP001'' (imp_msg m) else v)
      in case alias_asname a of
           None \<Rightarrow> bind m (alias_name a) v1
         | Some n \<Rightarrow> if n \<noteq> [] then bind n (alias_name a) v1 else bind m (alias_name a) v1)"

definition visit_Import :: "int \<Rightarrow> int \<Rightarrow> ast_alias list \<Rightarrow> LintVisitor \<Rightarrow> LintVisitor" where
  "visit_Import l c names v = fold (import_alias l c) names v"

text \<open>The body of the loop of \<^verbatim>\<open>visit_ImportFrom\<close>; \<^verbatim>\<open>x or y\<close> takes \<^verbatim>\<open>y\<close> when \<^verbatim>\<open>x\<close> is
  \<^verbatim>\<open>None\<close> or empty.\<close>

definition from_alias :: "string option \<Rightarrow> ast_alias \<Rightarrow> LintVisitor \<Rightarrow> LintVisitor" where
  "from_alias module a v =
     (let n = (case alias_asname a of
                 None \<Rightarrow> alias_name a
               | Some s \<Rightarrow> if s \<noteq> [] then s else alias_name a);
          target = (case module of
                      None \<Rightarrow> alias_name a
                    | Some s \<Rightarrow> if s \<noteq> [] then s else alias_name a)
      in bind n target v)"

definition visit_ImportFrom ::
  "int \<Rightarrow> int \<Rightarrow> string option \<Rightarrow> ast_alias list \<Rightarrow> LintVisitor \<Rightarrow> LintVisitor" where
  "visit_ImportFrom l c module names v =
     (let v1 = (case module of
                  None \<Rightarrow> v
                | Some s \<Rightarrow>
                    if s \<noteq> [] \<and> top_segment s \<in> deny_imports v
                    then error v l c ''IMP001'' (imp_msg (top_segment s)) else v)
      in fold (from_alias module) names v1)"

text \<open>\<^verbatim>\<open>_resolve_base\<close>: a dotted string, empty when the base is no name.\<close>

fun resolve_base :: "(string \<rightharpoonup> string) \<Rightarrow> node \<Rightarrow> string" where
  "resolve_base am (Name n) = (case am n of None \<Rightarrow> n | Some m \<Rightarrow> m)"
| "resolve_base am (Attribute b a) =
     (let base = resolve_base am b in if base \<noteq> [] then base @ ''.'' @ a else a)"
| "resolve_base am _ = []"

text \<open>\<^verbatim>\<open>_resolve_call_target\<close>: (module, function), the module \<^verbatim>\<open>None\<close> for builtins.\<close>

fun resolve_call_target :: "(string \<rightharpoonup> string) \<Rightarrow> node \<Rightarrow> string option \<times> string" where
  "resolve_call_target am (Name n) =
     (if n \<in> {''eval'', ''exec'', ''open''}
      then (if n \<in> {''eval'', ''exec''} then Some ''builtins'' else None, n)
      else (case am n of
              None \<Rightarrow> (None, n)
            | Some m \<Rightarrow> if m \<noteq> [] then (Some m, []) else (None, n)))"
| "resolve_call_target am (Attribute b a) = (Some (resolve_base am b), a)"
| "resolve_call_target am _ = (None, [])"

text \<open>\<^verbatim>\<open>target_mod and ...\<close>: the module is neither \<^verbatim>\<open>None\<close> nor empty.\<close>

definition truthy :: "string option \<Rightarrow> bool" where
  "truthy m = (case m of None \<Rightarrow> False | Some s \<Rightarrow> s \<noteq> [])"

text \<open>How an f-string prints the module: the text itself, or \<^verbatim>\<open>None\<close>.\<close>

definition fmt :: "string option \<Rightarrow> string" where
  "fmt m = (case m of None \<Rightarrow> ''None'' | Some s \<Rightarrow> s)"

definition cal002_msg :: string where
  "cal002_msg =
     ''Process spawning via '' @ [CHR 0x27] @ ''subprocess'' @ [CHR 0x27] @ '' is disallowed''"

definition write_mode :: "node list \<Rightarrow> bool" where
  "write_mode args =
     (case args of
        a0 # Constant (CStr m) # rest \<Rightarrow>
          CHR ''w'' \<in> set m \<or> CHR ''a'' \<in> set m \<or> CHR ''x'' \<in> set m
      | _ \<Rightarrow> False)"

definition fs_msg :: "string \<Rightarrow> string" where
  "fs_msg p = ''Write outside allowed dirs: '' @ [CHR 0x27] @ p @ [CHR 0x27]"

text \<open>The write-path check of \<^verbatim>\<open>visit_Call\<close>, for a call already known to be \<^verbatim>\<open>open\<close>.\<close>

definition check_write :: "int \<Rightarrow> int \<Rightarrow> node list \<Rightarrow> LintVisitor \<Rightarrow> LintVisitor" where
  "check_write l c args v =
     (case args of
        Constant (CStr p) # rest \<Rightarrow>
          if write_mode args then
            (let norm = normpath p in
             if \<not> (startswith norm (project_root v) \<or> startswith norm (artifacts_root v)
                    \<or> startswith norm ''./'' \<or> \<not> isabs norm)
             then error v l c ''FS001'' (fs_msg p) else v)
          else v
      | _ \<Rightarrow> v)"

text \<open>The checks of \<^verbatim>\<open>visit_Call\<close> on the call node itself, before its children.\<close>

definition call_checks :: "int \<Rightarrow> int \<Rightarrow> node \<Rightarrow> node list \<Rightarrow> LintVisitor \<Rightarrow> LintVisitor" where
  "call_checks l c func args v =
     (let (target_mod, target_func) = resolve_call_target (alias_map v) func;
          v1 = (if (target_mod, target_func) \<in> DANGEROUS_CALLS
                then error v l c ''CAL001''
                       (''Dangerous call: '' @ fmt target_mod @ ''.'' @ target_func)
                else v);
          v2 = (if truthy target_mod \<and> top_segment (fmt target_mod) = ''subprocess''
                then error v1 l c ''CAL002'' cal002_msg
                else v1);
          v3 = (if truthy target_mod
                   \<and> top_segment (fmt target_mod) \<in> {''socket'', ''requests''}
                then error v2 l c ''CAL003''
                       (''Network usage via '' @ [CHR 0x27] @ fmt target_mod
                          @ [CHR 0x27] @ '' is disallowed'')
                else v2)
      in if target_mod = None \<and> target_func = ''open'' \<and> length args \<ge> 1
         then check_write l c args v3 else v3)"

text \<open>
  \<^verbatim>\<open>NodeVisitor.visit\<close> with the three overridden methods; each of them ends with
  \<^verbatim>\<open>generic_visit\<close>, which visits the child nodes in field order (for a call: \<^verbatim>\<open>func\<close>,
  \<^verbatim>\<open>args\<close>, \<^verbatim>\<open>keywords\<close>).
\<close>

fun visit :: "node \<Rightarrow> LintVisitor \<Rightarrow> LintVisitor"
  and visit_nodes :: "node list \<Rightarrow> LintVisitor \<Rightarrow> LintVisitor"
  and visit_keywords :: "keyword list \<Rightarrow> LintVisitor \<Rightarrow> LintVisitor" where
  "visit (Import l c names) v = visit_Import l c names v"
| "visit (ImportFrom l c module names) v = visit_ImportFrom l c module names v"
| "visit (Call l c func args kws) v =
     visit_keywords kws (visit_nodes args (visit func (call_checks l c func args v)))"
| "visit (Name n) v = v"
| "visit (Attribute b a) v = visit b v"
| "visit (Constant k) v = v"
| "visit (Other children) v = visit_nodes children v"
| "visit_nodes [] v = v"
| "visit_nodes (n # ns) v = visit_nodes ns (visit n v)"
| "visit_keywords [] v = v"
| "visit_keywords (Keyword a x # ks) v = visit_keywords ks (visit x v)"

subsection \<open>The file analyzer\<close>

text \<open>
  What opening, reading and parsing the file at a path gives. A \<^verbatim>\<open>SyntaxError\<close> always has
  the attributes \<^verbatim>\<open>lineno\<close> and \<^verbatim>\<open>offset\<close>, either of which may be \<^verbatim>\<open>None\<close>; \<open>se_str\<close> is
  \<^verbatim>\<open>str(e)\<close>. \<open>Raises\<close> is any exception that is no \<^verbatim>\<open>SyntaxError\<close>.
\<close>

datatype py_exception =
  FileNotFoundError | PermissionError | IsADirectoryError | UnicodeDecodeError | ValueError

datatype syntax_error =
  SyntaxError (se_lineno: "int option") (se_offset: "int option") (se_str: string)

datatype file_outcome = Raises py_exception | Fails syntax_error | Parsed node

type_synonym file_system = "string \<Rightarrow> file_outcome"

text \<open>\<^verbatim>\<open>getattr(e, "lineno", 0)\<close>: the attribute is there, so its value is taken as it is.\<close>

definition syn_finding :: "string \<Rightarrow> syntax_error \<Rightarrow> finding" where
  "syn_finding p e =
     \<lparr>path = p, lineno = se_lineno e, col = se_offset e, level = ERROR,
      code = ''SYN001'', msg = ''SyntaxError: '' @ se_str e\<rparr>"

definition lint_file ::
  "file_system \<Rightarrow> string \<Rightarrow> string set \<Rightarrow> string \<Rightarrow> string \<Rightarrow> py_exception + finding list" where
  "lint_file fs p deny proot aroot =
     (case fs p of
        Raises exn \<Rightarrow> Inl exn
      | Fails e \<Rightarrow> Inr [syn_finding p e]
      | Parsed tree \<Rightarrow> Inr (findings (visit tree (LintVisitor_init p deny proot aroot))))"

subsection \<open>The driver\<close>

text \<open>The namespace \<^verbatim>\<open>parse_args\<close> returns. The parser of the command line refuses an empty
  list of paths (\<^verbatim>\<open>nargs="+"\<close>), so \<open>paths\<close> is never empty in a run.\<close>

record cli_args =
  paths :: "string list"
  opt_project_root :: string
  opt_artifacts_root :: string
  opt_deny_imports :: "string list"
  json :: bool
  fail_on_warn :: bool

text \<open>The loop of \<^verbatim>\<open>main\<close>; an exception leaving \<^verbatim>\<open>lint_file\<close> ends it.\<close>

fun lint_paths ::
  "file_system \<Rightarrow> string set \<Rightarrow> string \<Rightarrow> string \<Rightarrow> string list \<Rightarrow> finding list
     \<Rightarrow> py_exception + finding list" where
  "lint_paths fs deny proot aroot [] acc = Inr acc"
| "lint_paths fs deny proot aroot (p # ps) acc =
     (case lint_file fs p deny proot aroot of
        Inl exn \<Rightarrow> Inl exn
      | Inr fnd \<Rightarrow> lint_paths fs deny proot aroot ps (acc @ fnd))"

text \<open>What is printed: every finding of the list, in order, as JSON or as lines.\<close>

datatype printed = Json "finding list" | Lines "finding list"

text \<open>How the process ends: \<^verbatim>\<open>sys.exit\<close> with a code after printing, or the traceback of an
  exception nothing caught, with nothing printed.\<close>

datatype process_result = Exit printed int | Traceback py_exception


definition has_error :: "finding list \<Rightarrow> bool" where
  "has_error fnd = list_ex (\<lambda>f. level f = ERROR) fnd"

definition has_warn :: "finding list \<Rightarrow> bool" where
  "has_warn fnd = list_ex (\<lambda>f. level f = WARN) fnd"

definition main :: "file_system \<Rightarrow> cli_args \<Rightarrow> process_result" where
  "main fs args =
     (case lint_paths fs (set (opt_deny_imports args)) (opt_project_root args)
             (opt_artifacts_root args) (paths args) [] of
        Inl exn \<Rightarrow> Traceback exn
      | Inr fnd \<Rightarrow>
          (let out = (if json args then Json fnd else Lines fnd) in
           if has_error fnd \<or> (fail_on_warn args \<and> has_warn fnd) then Exit out 2
           else Exit out 0))"

subsection \<open>The traversal as a sequence of nodes\<close>

text \<open>The nodes of a tree in the order the visitor reaches them.\<close>

fun preorder :: "node \<Rightarrow> node list"
  and preorder_nodes :: "node list \<Rightarrow> node list"
  and preorder_keywords :: "keyword list \<Rightarrow> node list" where
  "preorder (Import l c names) = [Import l c names]"
| "preorder (ImportFrom l c module names) = [ImportFrom l c module names]"
| "preorder (Call l c func args kws) =
     Call l c func args kws # preorder func @ preorder_nodes args @ preorder_keywords kws"
| "preorder (Name n) = [Name n]"
| "preorder (Attribute b a) = Attribute b a # preorder b"
| "preorder (Constant k) = [Constant k]"
| "preorder (Other children) = Other children # preorder_nodes children"
| "preorder_nodes [] = []"
| "preorder_nodes (n # ns) = preorder n @ preorder_nodes ns"
| "preorder_keywords [] = []"
| "preorder_keywords (Keyword a x # ks) = preorder x @ preorder_keywords ks"

text \<open>What the visitor does at one node, its children apart.\<close>

fun at_node :: "node \<Rightarrow> LintVisitor \<Rightarrow> LintVisitor" where
  "at_node (Import l c names) v = visit_Import l c names v"
| "at_node (ImportFrom l c module names) v = visit_ImportFrom l c module names v"
| "at_node (Call l c func args kws) v = call_checks l c func args v"
| "at_node _ v = v"

subsection \<open>Notions the properties are stated with\<close>

text \<open>
  The findings the visitor adds at one node when it arrives there in state \<open>v\<close>, and the
  findings it adds along a sequence of nodes.
\<close>

definition emitted :: "node \<Rightarrow> LintVisitor \<Rightarrow> finding list" where
  "emitted n v = drop (length (findings v)) (findings (at_node n v))"

fun emitted_seq :: "node list \<Rightarrow> LintVisitor \<Rightarrow> finding list" where
  "emitted_seq [] v = []"
| "emitted_seq (n # ns) v = emitted n v @ emitted_seq ns (at_node n v)"

text \<open>
  The local name an \<^verbatim>\<open>import\<close> clause and a \<^verbatim>\<open>from ... import\<close> clause bind in the alias
  map, and the names a node binds.
\<close>

fun bound_name :: "ast_alias \<Rightarrow> string" where
  "bound_name (Alias nm None) = top_segment nm"
| "bound_name (Alias nm (Some a)) = (if a \<noteq> [] then a else top_segment nm)"

fun from_bound_name :: "ast_alias \<Rightarrow> string" where
  "from_bound_name (Alias nm None) = nm"
| "from_bound_name (Alias nm (Some a)) = (if a \<noteq> [] then a else nm)"

fun bound_names :: "node \<Rightarrow> string set" where
  "bound_names (Import l c names) = set (map bound_name names)"
| "bound_names (ImportFrom l c module names) = set (map from_bound_name names)"
| "bound_names _ = {}"

text \<open>
  The import clauses of a node that the import rule refuses, each by its top-level module:
  one per alias of an \<^verbatim>\<open>import\<close> statement, one per \<^verbatim>\<open>from ... import\<close> statement.
\<close>

fun denied_clauses :: "string set \<Rightarrow> node \<Rightarrow> string list" where
  "denied_clauses deny (Import l c names) =
     filter (\<lambda>m. m \<in> deny) (map (\<lambda>a. top_segment (alias_name a)) names)"
| "denied_clauses deny (ImportFrom l c (Some s) names) =
     (if s \<noteq> [] \<and> top_segment s \<in> deny then [top_segment s] else [])"
| "denied_clauses deny _ = []"

text \<open>
  The first positional argument when it is a string literal, and the second positional
  argument when it is a string literal.
\<close>

definition literal_path :: "node list \<Rightarrow> string option" where
  "literal_path args = (case args of Constant (CStr p) # rest \<Rightarrow> Some p | _ \<Rightarrow> None)"

definition literal_mode :: "node list \<Rightarrow> string option" where
  "literal_mode args = (case args of a0 # Constant (CStr m) # rest \<Rightarrow> Some m | _ \<Rightarrow> None)"

subsection \<open>Example inputs\<close>

text \<open>
  The defaults of the command line, and files as the parser hands them over: a file that
  does not exist, the scenarios of the specification, a batch with a file that cannot be
  read or does not parse, a module imported twice, an alias bound again, and a file with a
  null byte, for which the parser raises a \<^verbatim>\<open>SyntaxError\<close> that has neither line nor column.
\<close>

definition default_args :: "string list \<Rightarrow> cli_args" where
  "default_args ps =
     \<lparr>paths = ps, opt_project_root = ''/project'', opt_artifacts_root = ''/artifacts'',
      opt_deny_imports = [''socket'', ''requests'', ''subprocess'', ''multiprocessing'',
                          ''ftplib'', ''paramiko'', ''psutil''],
      json = False, fail_on_warn = False\<rparr>"

definition default_visitor :: LintVisitor where
  "default_visitor = LintVisitor_init ''scene.py'' DEFAULT_DENY_IMPORTS ''/project'' ''/artifacts''"


definition open_etc_passwd :: node where
  "open_etc_passwd =
     Call 1 0 (Name ''open'') [Constant (CStr ''/etc/passwd''), Constant (CStr ''w'')] []"

definition etc_fs :: file_system where
  "etc_fs q = Parsed (Other [Other [open_etc_passwd]])"





definition import_twice :: node where
  "import_twice =
     Other [Import 1 0 [Alias ''socket'' None], Import 2 0 [Alias ''socket'' None]]"

definition twice_fs :: file_system where
  "twice_fs q = Parsed import_twice"

definition rebound_alias :: node where
  "rebound_alias =
     Other [Import 1 0 [Alias ''subprocess'' (Some ''sp'')],
            Import 2 0 [Alias ''os'' (Some ''sp'')],
            Other [Call 3 0 (Attribute (Name ''sp'') ''Popen'') [] []]]"

definition rebound_fs :: file_system where
  "rebound_fs q = Parsed rebound_alias"

definition aliased_popen :: node where
  "aliased_popen =
     Other [Import 1 0 [Alias ''subprocess'' (Some ''sp'')],
            Import 2 0 [Alias ''os'' None],
            Other [Call 3 0 (Attribute (Name ''sp'') ''Popen'') [] []]]"

definition aliased_fs :: file_system where
  "aliased_fs q = Parsed aliased_popen"

definition null_byte :: syntax_error where
  "null_byte = SyntaxError None None ''source code string cannot contain null bytes''"

definition null_fs :: file_system where
  "null_fs q = Fails null_byte"

definition open_target_w :: node where
  "open_target_w = Call 1 0 (Name ''open'') [Name ''target'', Constant (CStr ''w'')] []"

definition open_dotdot :: node where
  "open_dotdot =
     Call 1 0 (Name ''open'') [Constant (CStr ''../../etc/passwd''), Constant (CStr ''w'')] []"

definition open_mode_keyword :: node where
  "open_mode_keyword =
     Call 1 0 (Name ''open'') [Constant (CStr ''/etc/passwd'')]
       [Keyword (Some ''mode'') (Constant (CStr ''w''))]"

definition open_file_keyword :: node where
  "open_file_keyword =
     Call 1 0 (Name ''open'') []
       [Keyword (Some ''file'') (Constant (CStr ''/etc/passwd'')),
        Keyword (Some ''mode'') (Constant (CStr ''w''))]"

section \<open>Properties\<close>

subsection \<open>The visitor keeps its configuration and only appends findings\<close>

lemma error_simps [simp]:
  "file_path (error v l c cd m) = file_path v"
  "deny_imports (error v l c cd m) = deny_imports v"
  "project_root (error v l c cd m) = project_root v"
  "artifacts_root (error v l c cd m) = artifacts_root v"
  "alias_map (error v l c cd m) = alias_map v"
  "findings (error v l c cd m) = findings v @ [mk_finding (file_path v) l c ERROR cd m]"
  by (simp_all add: error_def)

lemma bind_simps [simp]:
  "file_path (bind k m v) = file_path v"
  "deny_imports (bind k m v) = deny_imports v"
  "project_root (bind k m v) = project_root v"
  "artifacts_root (bind k m v) = artifacts_root v"
  "alias_map (bind k m v) = (alias_map v)(k \<mapsto> m)"
  "findings (bind k m v) = findings v"
  by (simp_all add: bind_def)

lemma import_alias_config [simp]:
  "file_path (import_alias l c a v) = file_path v"
  "deny_imports (import_alias l c a v) = deny_imports v"
  "project_root (import_alias l c a v) = project_root v"
  "artifacts_root (import_alias l c a v) = artifacts_root v"
  by (simp_all add: import_alias_def Let_def split: option.splits)

lemma import_alias_findings:
  "findings (import_alias l c a v) =
     findings v @ (if top_segment (alias_name a) \<in> deny_imports v
                   then [mk_finding (file_path v) l c ERROR ''IMP001'' (imp_msg (top_segment (alias_name a)))]
                   else [])"
  by (simp add: import_alias_def Let_def split: option.splits)

lemma visit_Import_config [simp]:
  "file_path (visit_Import l c names v) = file_path v"
  "deny_imports (visit_Import l c names v) = deny_imports v"
  "project_root (visit_Import l c names v) = project_root v"
  "artifacts_root (visit_Import l c names v) = artifacts_root v"
  unfolding visit_Import_def by (induction names arbitrary: v; simp)+

lemma visit_Import_findings:
  "findings (visit_Import l c names v) =
     findings v @ map (\<lambda>m. mk_finding (file_path v) l c ERROR ''IMP001'' (imp_msg m))
                    (filter (\<lambda>m. m \<in> deny_imports v) (map (\<lambda>a. top_segment (alias_name a)) names))"
  unfolding visit_Import_def
  by (induction names arbitrary: v) (simp_all add: import_alias_findings)

lemma from_alias_simps [simp]:
  "file_path (from_alias md a v) = file_path v"
  "deny_imports (from_alias md a v) = deny_imports v"
  "project_root (from_alias md a v) = project_root v"
  "artifacts_root (from_alias md a v) = artifacts_root v"
  "findings (from_alias md a v) = findings v"
  by (simp_all add: from_alias_def Let_def)

lemma fold_from_alias_simps [simp]:
  "file_path (fold (from_alias md) names v) = file_path v"
  "deny_imports (fold (from_alias md) names v) = deny_imports v"
  "project_root (fold (from_alias md) names v) = project_root v"
  "artifacts_root (fold (from_alias md) names v) = artifacts_root v"
  "findings (fold (from_alias md) names v) = findings v"
  by (induction names arbitrary: v; simp)+

lemma visit_ImportFrom_config [simp]:
  "file_path (visit_ImportFrom l c md names v) = file_path v"
  "deny_imports (visit_ImportFrom l c md names v) = deny_imports v"
  "project_root (visit_ImportFrom l c md names v) = project_root v"
  "artifacts_root (visit_ImportFrom l c md names v) = artifacts_root v"
  by (simp_all add: visit_ImportFrom_def Let_def split: option.splits)

lemma visit_ImportFrom_findings:
  "findings (visit_ImportFrom l c md names v) =
     findings v @ (case md of None \<Rightarrow> []
                   | Some s \<Rightarrow> if s \<noteq> [] \<and> top_segment s \<in> deny_imports v
                       then [mk_finding (file_path v) l c ERROR ''IMP001'' (imp_msg (top_segment s))]
                       else [])"
  by (simp add: visit_ImportFrom_def Let_def split: option.splits)

lemma check_write_config [simp]:
  "file_path (check_write l c args v) = file_path v"
  "deny_imports (check_write l c args v) = deny_imports v"
  "project_root (check_write l c args v) = project_root v"
  "artifacts_root (check_write l c args v) = artifacts_root v"
  "alias_map (check_write l c args v) = alias_map v"
  by (simp_all add: check_write_def Let_def split: list.splits node.splits const_value.splits)

lemma call_checks_config [simp]:
  "file_path (call_checks l c func args v) = file_path v"
  "deny_imports (call_checks l c func args v) = deny_imports v"
  "project_root (call_checks l c func args v) = project_root v"
  "artifacts_root (call_checks l c func args v) = artifacts_root v"
  "alias_map (call_checks l c func args v) = alias_map v"
  by (simp_all add: call_checks_def Let_def split: prod.splits)

lemma at_node_config [simp]:
  "file_path (at_node n v) = file_path v"
  "deny_imports (at_node n v) = deny_imports v"
  "project_root (at_node n v) = project_root v"
  "artifacts_root (at_node n v) = artifacts_root v"
  by (cases n; simp)+

lemma check_write_appends:
  "\<exists>em. findings (check_write l c args v) = findings v @ em
        \<and> (\<forall>f\<in>set em. level f = ERROR \<and> code f = ''FS001'')"
  by (auto simp: check_write_def Let_def mk_finding_def split: list.splits node.splits const_value.splits)

lemma call_checks_split:
  "\<exists>e v3. findings v3 = findings v @ e
     \<and> (\<forall>f\<in>set e. level f = ERROR \<and> code f \<in> {''CAL001'', ''CAL002'', ''CAL003''})
     \<and> (truthy (fst (resolve_call_target (alias_map v) func))
          \<and> top_segment (fmt (fst (resolve_call_target (alias_map v) func))) = ''subprocess''
          \<longrightarrow> mk_finding (file_path v) l c ERROR ''CAL002'' cal002_msg \<in> set e)
     \<and> file_path v3 = file_path v \<and> project_root v3 = project_root v
     \<and> artifacts_root v3 = artifacts_root v
     \<and> call_checks l c func args v =
         (if resolve_call_target (alias_map v) func = (None, ''open'') \<and> args \<noteq> []
          then check_write l c args v3 else v3)"
proof -
  obtain tm tf where r: "resolve_call_target (alias_map v) func = (tm, tf)"
    by (cases "resolve_call_target (alias_map v) func")
  define v1 where "v1 = (if (tm, tf) \<in> DANGEROUS_CALLS
                then error v l c ''CAL001''
                       (''Dangerous call: '' @ fmt tm @ ''.'' @ tf)
                else v)"
  define v2 where "v2 = (if truthy tm \<and> top_segment (fmt tm) = ''subprocess''
                then error v1 l c ''CAL002'' cal002_msg
                else v1)"
  define v3 where "v3 = (if truthy tm
                   \<and> top_segment (fmt tm) \<in> {''socket'', ''requests''}
                then error v2 l c ''CAL003''
                       (''Network usage via '' @ [CHR 0x27] @ fmt tm
                          @ [CHR 0x27] @ '' is disallowed'')
                else v2)"
  have cc: "call_checks l c func args v =
      (if tm = None \<and> tf = ''open'' \<and> length args \<ge> 1 then check_write l c args v3 else v3)"
    by (simp only: call_checks_def r v1_def v2_def v3_def Let_def prod.case)
  have p1: "file_path v1 = file_path v" "project_root v1 = project_root v"
    "artifacts_root v1 = artifacts_root v" by (simp_all add: v1_def)
  have p2: "file_path v2 = file_path v" "project_root v2 = project_root v"
    "artifacts_root v2 = artifacts_root v" by (simp_all add: v2_def p1)
  have p3: "file_path v3 = file_path v" "project_root v3 = project_root v"
    "artifacts_root v3 = artifacts_root v" by (simp_all add: v3_def p2)
  have "\<exists>e. findings v1 = findings v @ e
           \<and> (\<forall>f\<in>set e. level f = ERROR \<and> code f = ''CAL001'')"
    by (simp add: v1_def mk_finding_def)
  then obtain e1 where e1: "findings v1 = findings v @ e1"
    "\<forall>f\<in>set e1. level f = ERROR \<and> code f = ''CAL001''" by blast
  have "\<exists>e. findings v2 = findings v1 @ e
           \<and> (\<forall>f\<in>set e. level f = ERROR \<and> code f = ''CAL002'')
           \<and> (truthy tm \<and> top_segment (fmt tm) = ''subprocess''
                \<longrightarrow> mk_finding (file_path v) l c ERROR ''CAL002'' cal002_msg \<in> set e)"
    by (simp add: v2_def mk_finding_def p1)
  then obtain e2 where e2: "findings v2 = findings v1 @ e2"
    "\<forall>f\<in>set e2. level f = ERROR \<and> code f = ''CAL002''"
    "truthy tm \<and> top_segment (fmt tm) = ''subprocess''
       \<longrightarrow> mk_finding (file_path v) l c ERROR ''CAL002'' cal002_msg \<in> set e2"
    by blast
  have "\<exists>e. findings v3 = findings v2 @ e
           \<and> (\<forall>f\<in>set e. level f = ERROR \<and> code f = ''CAL003'')"
    by (simp add: v3_def mk_finding_def)
  then obtain e3 where e3: "findings v3 = findings v2 @ e3"
    "\<forall>f\<in>set e3. level f = ERROR \<and> code f = ''CAL003''" by blast
  have a: "findings v3 = findings v @ (e1 @ e2 @ e3)"
    by (simp add: e1(1) e2(1) e3(1))
  have b: "\<forall>f\<in>set (e1 @ e2 @ e3).
      level f = ERROR \<and> code f \<in> {''CAL001'', ''CAL002'', ''CAL003''}"
    using e1(2) e2(2) e3(2) by (simp add: ball_Un)
  have c: "truthy (fst (resolve_call_target (alias_map v) func))
          \<and> top_segment (fmt (fst (resolve_call_target (alias_map v) func))) = ''subprocess''
          \<longrightarrow> mk_finding (file_path v) l c ERROR ''CAL002'' cal002_msg \<in> set (e1 @ e2 @ e3)"
    using e2(3) by (simp add: r)
  have d: "call_checks l c func args v =
         (if resolve_call_target (alias_map v) func = (None, ''open'') \<and> args \<noteq> []
          then check_write l c args v3 else v3)"
    unfolding cc r by (cases args) simp_all
  from a b c d p3 show ?thesis by blast
qed

lemma call_checks_appends:
  "\<exists>em. findings (call_checks l c func args v) = findings v @ em
        \<and> (\<forall>f\<in>set em. level f = ERROR \<and> code f \<in> {''CAL001'', ''CAL002'', ''CAL003'', ''FS001''})"
proof -
  obtain e v3 where e: "findings v3 = findings v @ e"
    "\<forall>f\<in>set e. level f = ERROR \<and> code f \<in> {''CAL001'', ''CAL002'', ''CAL003''}"
    "call_checks l c func args v =
         (if resolve_call_target (alias_map v) func = (None, ''open'') \<and> args \<noteq> []
          then check_write l c args v3 else v3)"
    using call_checks_split[of v func l c args] by blast
  obtain e4 where e4: "findings (check_write l c args v3) = findings v3 @ e4"
    "\<forall>f\<in>set e4. level f = ERROR \<and> code f = ''FS001''"
    using check_write_appends[of l c args v3] by blast
  show ?thesis
  proof (cases "resolve_call_target (alias_map v) func = (None, ''open'') \<and> args \<noteq> []")
    case True
    with e(3) have "findings (call_checks l c func args v) = findings v @ (e @ e4)"
      by (simp add: e(1) e4(1))
    moreover have "\<forall>f\<in>set (e @ e4).
        level f = ERROR \<and> code f \<in> {''CAL001'', ''CAL002'', ''CAL003'', ''FS001''}"
      using e(2) e4(2) by auto
    ultimately show ?thesis by blast
  next
    case False
    with e(3) have "findings (call_checks l c func args v) = findings v @ e"
      by (simp add: e(1))
    moreover have "\<forall>f\<in>set e.
        level f = ERROR \<and> code f \<in> {''CAL001'', ''CAL002'', ''CAL003'', ''FS001''}"
      using e(2) by auto
    ultimately show ?thesis by blast
  qed
qed

lemma at_node_appends:
  "\<exists>em. findings (at_node n v) = findings v @ em \<and> (\<forall>f\<in>set em. level f = ERROR)"
proof (cases n)
  case (Import l c names)
  then show ?thesis by (simp add: visit_Import_findings mk_finding_def)
next
  case (ImportFrom l c md names)
  then show ?thesis
    by (auto simp: visit_ImportFrom_findings mk_finding_def split: option.splits)
next
  case (Call l c func args kws)
  with call_checks_appends[of l c func args v] show ?thesis by auto
qed simp_all

lemma findings_at_node: "findings (at_node n v) = findings v @ emitted n v"
  using at_node_appends[of n v] by (auto simp: emitted_def)

lemma emitted_level: "f \<in> set (emitted n v) \<Longrightarrow> level f = ERROR"
  using at_node_appends[of n v] by (auto simp: emitted_def)

subsection \<open>The traversal is a fold over the nodes in pre-order\<close>

lemma visit_is_fold:
  "visit n v = fold at_node (preorder n) v"
  "visit_nodes ns v = fold at_node (preorder_nodes ns) v"
  "visit_keywords ks v = fold at_node (preorder_keywords ks) v"
  by (induction n v and ns v and ks v rule: visit_visit_nodes_visit_keywords.induct) simp_all

lemma findings_fold_at_node:
  "findings (fold at_node ns v) = findings v @ emitted_seq ns v"
  by (induction ns arbitrary: v) (simp_all add: findings_at_node)

lemma emitted_seq_append:
  "emitted_seq (xs @ ys) v = emitted_seq xs v @ emitted_seq ys (fold at_node xs v)"
  by (induction xs arbitrary: v) simp_all

lemma emitted_seq_level: "f \<in> set (emitted_seq ns v) \<Longrightarrow> level f = ERROR"
  by (induction ns arbitrary: v) (auto dest: emitted_level)

lemma fold_at_node_config [simp]:
  "file_path (fold at_node ns v) = file_path v"
  "deny_imports (fold at_node ns v) = deny_imports v"
  "project_root (fold at_node ns v) = project_root v"
  "artifacts_root (fold at_node ns v) = artifacts_root v"
  by (induction ns arbitrary: v; simp)+

lemma lint_file_emitted:
  "fs p = Parsed tree \<Longrightarrow>
   lint_file fs p deny proot aroot =
     Inr (emitted_seq (preorder tree) (LintVisitor_init p deny proot aroot))"
  by (simp add: lint_file_def visit_is_fold findings_fold_at_node LintVisitor_init_def)

subsection \<open>Findings of the import rule\<close>

lemma imp_msg_inject [simp]: "imp_msg a = imp_msg b \<longleftrightarrow> a = b"
  by (simp add: imp_msg_def)

lemma emitted_Import:
  "emitted (Import l c names) v =
     map (\<lambda>m. mk_finding (file_path v) l c ERROR ''IMP001'' (imp_msg m))
       (denied_clauses (deny_imports v) (Import l c names))"
  by (simp add: emitted_def visit_Import_findings)

lemma emitted_ImportFrom:
  "emitted (ImportFrom l c md names) v =
     map (\<lambda>m. mk_finding (file_path v) l c ERROR ''IMP001'' (imp_msg m))
       (denied_clauses (deny_imports v) (ImportFrom l c md names))"
  by (cases md) (simp_all add: emitted_def visit_ImportFrom_findings)

lemma emitted_Call_codes:
  "f \<in> set (emitted (Call l c func args kws) v) \<Longrightarrow>
   code f \<in> {''CAL001'', ''CAL002'', ''CAL003'', ''FS001''}"
  using call_checks_appends[of l c func args v] by (auto simp: emitted_def)

lemma emitted_other [simp]:
  "emitted (Name n) v = []" "emitted (Attribute b a) v = []"
  "emitted (Constant k) v = []" "emitted (Other ch) v = []"
  by (simp_all add: emitted_def)

lemma count_imp_map:
  "length (filter (\<lambda>f. code f = ''IMP001'' \<and> level f = ERROR \<and> msg f = imp_msg M)
      (map (\<lambda>m. mk_finding p l c ERROR ''IMP001'' (imp_msg m)) xs)) = count_list xs M"
  by (induction xs) (auto simp: mk_finding_def)

lemma count_imp_emitted:
  "length (filter (\<lambda>f. code f = ''IMP001'' \<and> level f = ERROR \<and> msg f = imp_msg M) (emitted n v))
     = count_list (denied_clauses (deny_imports v) n) M"
proof (cases n)
  case (Import l c names)
  then show ?thesis by (simp only: emitted_Import count_imp_map)
next
  case (ImportFrom l c md names)
  then show ?thesis by (simp only: emitted_ImportFrom count_imp_map)
next
  case (Call l c func args kws)
  have "filter (\<lambda>f. code f = ''IMP001'' \<and> level f = ERROR \<and> msg f = imp_msg M)
          (emitted (Call l c func args kws) v) = []"
    by (auto simp: filter_empty_conv dest!: emitted_Call_codes)
  with Call show ?thesis by simp
qed simp_all

lemma count_imp_emitted_seq:
  "length (filter (\<lambda>f. code f = ''IMP001'' \<and> level f = ERROR \<and> msg f = imp_msg M)
       (emitted_seq ns v))
     = count_list (concat (map (denied_clauses (deny_imports v)) ns)) M"
  by (induction ns arbitrary: v) (simp_all add: count_imp_emitted)

subsection \<open>The alias map\<close>

lemma import_alias_map:
  "alias_map (import_alias l c a v) = (alias_map v)(bound_name a \<mapsto> alias_name a)"
  by (cases a) (simp add: import_alias_def Let_def split: option.splits)

lemma from_alias_map:
  "alias_map (from_alias md a v) k = alias_map v k" if "k \<noteq> from_bound_name a"
  using that by (cases a) (auto simp: from_alias_def Let_def split: option.splits)

lemma fold_import_alias_map:
  "k \<notin> set (map bound_name names) \<Longrightarrow>
   alias_map (fold (import_alias l c) names v) k = alias_map v k"
  by (induction names arbitrary: v) (simp_all add: import_alias_map)

lemma fold_from_alias_map:
  "k \<notin> set (map from_bound_name names) \<Longrightarrow>
   alias_map (fold (from_alias md) names v) k = alias_map v k"
  by (induction names arbitrary: v) (simp_all add: from_alias_map)

lemma visit_ImportFrom_map:
  "k \<notin> set (map from_bound_name names) \<Longrightarrow>
   alias_map (visit_ImportFrom l c md names v) k = alias_map v k"
  by (simp add: visit_ImportFrom_def Let_def fold_from_alias_map split: option.splits)

lemma at_node_unbound:
  "k \<notin> bound_names n \<Longrightarrow> alias_map (at_node n v) k = alias_map v k"
  by (cases n) (simp_all add: visit_Import_def fold_import_alias_map visit_ImportFrom_map)

lemma fold_at_node_unbound:
  "\<forall>n\<in>set ns. k \<notin> bound_names n \<Longrightarrow> alias_map (fold at_node ns v) k = alias_map v k"
  by (induction ns arbitrary: v) (simp_all add: at_node_unbound)

lemma top_segment_subprocess: "top_segment ''subprocess'' = ''subprocess''"
  by (simp add: top_segment_def)

lemma emitted_Call_cal002:
  assumes "alias_map v a = Some ''subprocess''"
  shows "mk_finding (file_path v) l c ERROR ''CAL002'' cal002_msg
           \<in> set (emitted (Call l c (Attribute (Name a) attr) args kws) v)"
proof -
  let ?f = "Attribute (Name a) attr"
  have r: "resolve_call_target (alias_map v) ?f = (Some ''subprocess'', attr)"
    using assms by simp
  obtain e v3 where e: "findings v3 = findings v @ e"
    "truthy (fst (resolve_call_target (alias_map v) ?f))
          \<and> top_segment (fmt (fst (resolve_call_target (alias_map v) ?f))) = ''subprocess''
          \<longrightarrow> mk_finding (file_path v) l c ERROR ''CAL002'' cal002_msg \<in> set e"
    "call_checks l c ?f args v =
         (if resolve_call_target (alias_map v) ?f = (None, ''open'') \<and> args \<noteq> []
          then check_write l c args v3 else v3)"
    using call_checks_split[of v ?f l c args] by blast
  have in_e: "mk_finding (file_path v) l c ERROR ''CAL002'' cal002_msg \<in> set e"
    using e(2) unfolding r by (simp add: truthy_def fmt_def top_segment_subprocess)
  have "call_checks l c ?f args v = v3"
    using e(3) unfolding r by simp
  then have "emitted (Call l c ?f args kws) v = e"
    by (simp add: emitted_def e(1))
  with in_e show ?thesis by simp
qed

subsection \<open>The write-path rule\<close>


lemma write_mode_literal:
  "write_mode args \<Longrightarrow> \<exists>m. literal_mode args = Some m"
  by (auto simp: write_mode_def literal_mode_def split: list.splits node.splits const_value.splits)

lemma check_write_silent:
  assumes "literal_path args = None \<or> literal_mode args = None
           \<or> (\<exists>pth. literal_path args = Some pth \<and> \<not> isabs (normpath pth))"
  shows "check_write l c args v = v"
proof (cases "write_mode args")
  case False
  then show ?thesis
    by (simp add: check_write_def split: list.splits node.splits const_value.splits)
next
  case True
  with assms write_mode_literal[OF True] show ?thesis
    by (auto simp: check_write_def literal_path_def Let_def
             split: list.splits node.splits const_value.splits)
qed

lemma no_fs001_emitted:
  assumes "literal_path args = None \<or> literal_mode args = None
           \<or> (\<exists>pth. literal_path args = Some pth \<and> \<not> isabs (normpath pth))"
  shows "filter (\<lambda>f. code f = ''FS001'') (emitted (Call l c func args kws) v) = []"
proof -
  obtain e v3 where e: "findings v3 = findings v @ e"
    "\<forall>f\<in>set e. level f = ERROR \<and> code f \<in> {''CAL001'', ''CAL002'', ''CAL003''}"
    "call_checks l c func args v =
         (if resolve_call_target (alias_map v) func = (None, ''open'') \<and> args \<noteq> []
          then check_write l c args v3 else v3)"
    using call_checks_split[of v func l c args] by blast
  have "call_checks l c func args v = v3"
    using e(3) check_write_silent[OF assms, of l c v3] by simp
  then have "emitted (Call l c func args kws) v = e"
    by (simp add: emitted_def e(1))
  with e(2) show ?thesis by (auto simp: filter_empty_conv)
qed


subsection \<open>The loop of the driver\<close>

lemma lint_file_syntax_error:
  "fs p = Fails e \<Longrightarrow>
   lint_file fs p deny proot aroot =
     Inr [\<lparr>path = p, lineno = se_lineno e, col = se_offset e, level = ERROR,
           code = ''SYN001'', msg = ''SyntaxError: '' @ se_str e\<rparr>]"
  by (simp add: lint_file_def syn_finding_def)

lemma lint_paths_acc:
  "lint_paths fs d pr ar ps acc =
     (case lint_paths fs d pr ar ps [] of Inl exn \<Rightarrow> Inl exn | Inr f \<Rightarrow> Inr (acc @ f))"
proof (induction ps arbitrary: acc)
  case Nil
  then show ?case by simp
next
  case (Cons q ps)
  show ?case
  proof (cases "lint_file fs q d pr ar")
    case (Inl exn)
    then show ?thesis by simp
  next
    case (Inr fnd)
    then show ?thesis
      using Cons.IH[of "acc @ fnd"] Cons.IH[of fnd] by (simp split: sum.splits)
  qed
qed


lemma lint_file_level:
  "lint_file fs p d pr ar = Inr fnd \<Longrightarrow> f \<in> set fnd \<Longrightarrow> level f = ERROR"
  by (cases "fs p")
     (auto simp: lint_file_def syn_finding_def visit_is_fold findings_fold_at_node
                 LintVisitor_init_def dest: emitted_seq_level)

lemma lint_paths_level:
  "lint_paths fs d pr ar ps [] = Inr fnd \<Longrightarrow> f \<in> set fnd \<Longrightarrow> level f = ERROR"
proof (induction ps arbitrary: fnd)
  case Nil
  then show ?case by simp
next
  case (Cons q ps)
  from Cons.prems(1) obtain f1 where f1: "lint_file fs q d pr ar = Inr f1"
    by (cases "lint_file fs q d pr ar") simp_all
  with Cons.prems(1) have "lint_paths fs d pr ar ps f1 = Inr fnd" by simp
  then obtain f2 where f2: "lint_paths fs d pr ar ps [] = Inr f2" "fnd = f1 @ f2"
    using lint_paths_acc[of fs d pr ar ps f1] by (auto split: sum.splits)
  with Cons.prems(2) Cons.IH[OF f2(1)] lint_file_level[OF f1] show ?case by auto
qed


section \<open>Properties of the specification\<close>









text \<open>
  C4 (as amended). For a parsed file and a module \<open>M\<close>, the number of \<open>IMP001\<close> findings of
  level \<open>ERROR\<close> naming \<open>M\<close> is the number of refused import clauses whose top-level module
  is \<open>M\<close>: one for every alias of an \<^verbatim>\<open>import\<close> statement, aliased with \<^verbatim>\<open>as\<close> or not, and
  one for every \<^verbatim>\<open>from M... import\<close> statement. A file with exactly one such clause has
  exactly one such finding.
\<close>

theorem C4_import_findings_count:
  assumes "fs p = Parsed tree"
  shows "\<exists>fnd. lint_file fs p deny proot aroot = Inr fnd
     \<and> length (filter (\<lambda>f. code f = ''IMP001'' \<and> level f = ERROR \<and> msg f = imp_msg M) fnd)
        = count_list (concat (map (denied_clauses deny) (preorder tree))) M"
  using assms
  by (simp add: lint_file_emitted count_imp_emitted_seq LintVisitor_init_def)

text \<open>
  A file that imports \<^verbatim>\<open>socket\<close> in two statements has two such clauses and two findings.
\<close>

theorem C4_import_findings_count_witness:
  "length (filter (\<lambda>f. code f = ''IMP001'' \<and> level f = ERROR \<and> msg f = imp_msg ''socket'')
     [mk_finding ''scene.py'' 1 0 ERROR ''IMP001'' (imp_msg ''socket''),
      mk_finding ''scene.py'' 2 0 ERROR ''IMP001'' (imp_msg ''socket'')])
   = count_list (concat (map (denied_clauses DEFAULT_DENY_IMPORTS) (preorder import_twice)))
       ''socket''"
proof -
  have h: "twice_fs ''scene.py'' = Parsed import_twice" by (simp add: twice_fs_def)
  have l: "lint_file twice_fs ''scene.py'' DEFAULT_DENY_IMPORTS ''/project'' ''/artifacts'' =
     Inr [mk_finding ''scene.py'' 1 0 ERROR ''IMP001'' (imp_msg ''socket''),
          mk_finding ''scene.py'' 2 0 ERROR ''IMP001'' (imp_msg ''socket'')]"
    by code_simp
  from C4_import_findings_count[where fs = twice_fs and p = "''scene.py''"
         and deny = DEFAULT_DENY_IMPORTS and proot = "''/project''" and aroot = "''/artifacts''"
         and M = "''socket''", OF h]
  show ?thesis unfolding l by simp
qed

text \<open>
  As C4 is written (exactly one finding for a file that imports the module), it fails: the
  file \<^verbatim>\<open>import socket\<close>, \<^verbatim>\<open>import socket\<close> gets two \<open>IMP001\<close> findings naming \<^verbatim>\<open>socket\<close>.
\<close>

theorem C4_two_imports_counterexample:
  "lint_file twice_fs ''scene.py'' DEFAULT_DENY_IMPORTS ''/project'' ''/artifacts'' =
     Inr [mk_finding ''scene.py'' 1 0 ERROR ''IMP001'' (imp_msg ''socket''),
          mk_finding ''scene.py'' 2 0 ERROR ''IMP001'' (imp_msg ''socket'')]"
  by code_simp

text \<open>
  C5 (as amended). In a parsed file, let the statement \<^verbatim>\<open>import subprocess as a\<close>, for any
  non-empty name \<open>a\<close>, be followed in traversal order by a call \<^verbatim>\<open>a.Popen(...)\<close>, with no
  import in between that binds \<open>a\<close> again. Then the findings of the file contain a
  \<open>CAL002\<close> \<open>ERROR\<close> at the position of that call.
\<close>

theorem C5_aliased_subprocess_call:
  assumes parsed: "fs p = Parsed tree"
    and order: "preorder tree =
       pre @ Import l c [Alias ''subprocess'' (Some a)] # mid
         @ Call l' c' (Attribute (Name a) ''Popen'') args kws # post"
    and a: "a \<noteq> []"
    and mid: "\<forall>n\<in>set mid. a \<notin> bound_names n"
  shows "\<exists>fnd. lint_file fs p deny proot aroot = Inr fnd
           \<and> mk_finding p l' c' ERROR ''CAL002'' cal002_msg \<in> set fnd"
proof -
  let ?v0 = "LintVisitor_init p deny proot aroot"
  let ?imp = "Import l c [Alias ''subprocess'' (Some a)]"
  let ?call = "Call l' c' (Attribute (Name a) ''Popen'') args kws"
  let ?v1 = "fold at_node (pre @ ?imp # mid) ?v0"
  have fp: "file_path ?v1 = p" by (simp add: LintVisitor_init_def)
  have "alias_map (at_node ?imp (fold at_node pre ?v0)) a = Some ''subprocess''"
    using a by (simp add: visit_Import_def import_alias_map)
  then have "alias_map ?v1 a = Some ''subprocess''"
    using mid by (simp add: fold_at_node_unbound)
  from emitted_Call_cal002[OF this, of l' c' "''Popen''" args kws]
  have "mk_finding p l' c' ERROR ''CAL002'' cal002_msg \<in> set (emitted ?call ?v1)"
    by (simp only: fp)
  moreover have "preorder tree = (pre @ ?imp # mid) @ ?call # post"
    using order by simp
  then have "lint_file fs p deny proot aroot =
     Inr (emitted_seq (pre @ ?imp # mid) ?v0 @ emitted ?call ?v1 @ emitted_seq post (at_node ?call ?v1))"
    using lint_file_emitted[of fs p tree deny proot aroot] parsed
    by (simp only: emitted_seq_append emitted_seq.simps)
  ultimately show ?thesis by simp
qed

text \<open>
  \<^verbatim>\<open>import subprocess as sp\<close>, \<^verbatim>\<open>import os\<close>, \<^verbatim>\<open>sp.Popen()\<close>: the call on line 3 is reported.
\<close>

theorem C5_aliased_subprocess_call_witness:
  "mk_finding ''scene.py'' 3 0 ERROR ''CAL002'' cal002_msg
     \<in> set [mk_finding ''scene.py'' 1 0 ERROR ''IMP001'' (imp_msg ''subprocess''),
            mk_finding ''scene.py'' 3 0 ERROR ''CAL002'' cal002_msg]"
proof -
  have h1: "aliased_fs ''scene.py'' = Parsed aliased_popen" by (simp add: aliased_fs_def)
  have h2: "preorder aliased_popen =
      [aliased_popen] @ Import 1 0 [Alias ''subprocess'' (Some ''sp'')]
        # [Import 2 0 [Alias ''os'' None],
           Other [Call 3 0 (Attribute (Name ''sp'') ''Popen'') [] []]]
        @ Call 3 0 (Attribute (Name ''sp'') ''Popen'') [] []
        # [Attribute (Name ''sp'') ''Popen'', Name ''sp'']"
    by (simp add: aliased_popen_def)
  have h3: "''sp'' \<noteq> []" by simp
  have h4: "\<forall>n\<in>set [Import 2 0 [Alias ''os'' None],
                     Other [Call 3 0 (Attribute (Name ''sp'') ''Popen'') [] []]].
              ''sp'' \<notin> bound_names n"
    by (simp add: top_segment_def)
  have l: "lint_file aliased_fs ''scene.py'' DEFAULT_DENY_IMPORTS ''/project'' ''/artifacts'' =
     Inr [mk_finding ''scene.py'' 1 0 ERROR ''IMP001'' (imp_msg ''subprocess''),
          mk_finding ''scene.py'' 3 0 ERROR ''CAL002'' cal002_msg]"
    by code_simp
  from C5_aliased_subprocess_call[where fs = aliased_fs and p = "''scene.py''"
         and deny = DEFAULT_DENY_IMPORTS and proot = "''/project''" and aroot = "''/artifacts''",
       OF h1 h2 h3 h4]
  show ?thesis unfolding l by simp
qed

text \<open>
  As C5 is written (every file with the import followed by the call), it fails: in
  \<^verbatim>\<open>import subprocess as sp\<close>, \<^verbatim>\<open>import os as sp\<close>, \<^verbatim>\<open>sp.Popen()\<close> the later binding wins, the
  callee resolves to \<^verbatim>\<open>os\<close>, and the only finding is the \<open>IMP001\<close> of line 1.
\<close>

theorem C5_rebound_alias_counterexample:
  "lint_file rebound_fs ''scene.py'' DEFAULT_DENY_IMPORTS ''/project'' ''/artifacts'' =
     Inr [mk_finding ''scene.py'' 1 0 ERROR ''IMP001'' (imp_msg ''subprocess'')]"
  by code_simp

text \<open>
  C6. The analyzer returns one \<open>SYN001\<close> finding for a file that does not parse. The
  specification has line 0 and column 0 in it when the parser reports none; the code does
  not. It reads them with \<^verbatim>\<open>getattr(e, "lineno", 0)\<close>, whose default is never taken,
  since every \<^verbatim>\<open>SyntaxError\<close> has the attribute: for a file with a null byte the finding
  carries \<^verbatim>\<open>None\<close> for both.
\<close>

theorem C6_null_line_and_column:
  "lint_file null_fs ''scene.py'' DEFAULT_DENY_IMPORTS ''/project'' ''/artifacts'' =
     Inr [\<lparr>path = ''scene.py'', lineno = None, col = None, level = ERROR, code = ''SYN001'',
           msg = ''SyntaxError: source code string cannot contain null bytes''\<rparr>]"
  by (simp add: lint_file_def null_fs_def null_byte_def syn_finding_def)

text \<open>
  C7. For every call whose first positional argument is not a string literal, or whose
  second positional argument is not a string literal (or is missing), whatever the callee
  and the state of the visitor, no \<open>FS001\<close> finding is added at that call.
\<close>

theorem C7_non_literal_arguments:
  assumes "literal_path args = None \<or> literal_mode args = None"
  shows "filter (\<lambda>f. code f = ''FS001'') (emitted (Call l c func args kws) v) = []"
  using assms by (intro no_fs001_emitted) blast

text \<open>
  \<^verbatim>\<open>open(target, "w")\<close>, the path a variable.
\<close>

theorem C7_non_literal_arguments_witness:
  "filter (\<lambda>f. code f = ''FS001'') (emitted open_target_w default_visitor) = []"
proof -
  have h: "literal_path [Name ''target'', Constant (CStr ''w'')] = None
           \<or> literal_mode [Name ''target'', Constant (CStr ''w'')] = None"
    by (simp add: literal_path_def)
  from C7_non_literal_arguments[OF h] show ?thesis
    by (simp add: open_target_w_def)
qed

text \<open>
  C8. For every call whose path is a string literal with a normalized form that is not
  absolute, whatever the mode, no \<open>FS001\<close> finding is added at that call.
\<close>

theorem C8_relative_path_accepted:
  assumes "literal_path args = Some pth"
    and "\<not> isabs (normpath pth)"
  shows "filter (\<lambda>f. code f = ''FS001'') (emitted (Call l c func args kws) v) = []"
  using assms by (intro no_fs001_emitted) blast

text \<open>
  \<^verbatim>\<open>open("../../etc/passwd", "w")\<close>: normalization keeps the leading \<^verbatim>\<open>..\<close> segments, the
  path is relative, nothing is reported.
\<close>

theorem C8_relative_path_accepted_witness:
  "normpath ''../../etc/passwd'' = ''../../etc/passwd''
   \<and> filter (\<lambda>f. code f = ''FS001'') (emitted open_dotdot default_visitor) = []"
proof -
  have n: "normpath ''../../etc/passwd'' = ''../../etc/passwd''" by code_simp
  have h1: "literal_path [Constant (CStr ''../../etc/passwd''), Constant (CStr ''w'')]
            = Some ''../../etc/passwd''"
    by (simp add: literal_path_def)
  have h2: "\<not> isabs (normpath ''../../etc/passwd'')"
    unfolding n by (simp add: isabs_def startswith_def)
  from C8_relative_path_accepted[OF h1 h2] n show ?thesis
    by (simp add: open_dotdot_def)
qed

text \<open>
  C9. Every finding the analysis of a file returns has level \<open>ERROR\<close>; so no list of
  findings a run collects has a warning, and the run ends the same way with and without the
  fail-on-warning flag.
\<close>

theorem C9_only_errors:
  "(lint_file fs p deny proot aroot = Inr fnd \<longrightarrow> (\<forall>f\<in>set fnd. level f = ERROR))
   \<and> (lint_paths fs deny proot aroot ps [] = Inr collected \<longrightarrow> \<not> has_warn collected)
   \<and> main fs (args\<lparr>fail_on_warn := True\<rparr>) = main fs (args\<lparr>fail_on_warn := False\<rparr>)"
proof (intro conjI impI)
  assume "lint_file fs p deny proot aroot = Inr fnd"
  then show "\<forall>f\<in>set fnd. level f = ERROR"
    by (auto dest: lint_file_level)
next
  assume "lint_paths fs deny proot aroot ps [] = Inr collected"
  then show "\<not> has_warn collected"
    by (auto simp: has_warn_def list_ex_iff dest: lint_paths_level)
next
  show "main fs (args\<lparr>fail_on_warn := True\<rparr>) = main fs (args\<lparr>fail_on_warn := False\<rparr>)"
  proof (cases "lint_paths fs (set (opt_deny_imports args)) (opt_project_root args)
                  (opt_artifacts_root args) (paths args) []")
    case (Inl exn)
    then show ?thesis by (simp add: main_def)
  next
    case (Inr collected)
    then have "\<not> has_warn collected"
      by (auto simp: has_warn_def list_ex_iff dest: lint_paths_level)
    with Inr show ?thesis by (simp add: main_def Let_def)
  qed
qed

text \<open>
  The run over \<^verbatim>\<open>open("/etc/passwd", "w")\<close>.
\<close>

theorem C9_only_errors_witness:
  "level (mk_finding ''scene.py'' 1 0 ERROR ''FS001'' (fs_msg ''/etc/passwd'')) = ERROR
   \<and> \<not> has_warn [mk_finding ''scene.py'' 1 0 ERROR ''FS001'' (fs_msg ''/etc/passwd'')]
   \<and> main etc_fs ((default_args [''scene.py''])\<lparr>fail_on_warn := True\<rparr>)
     = main etc_fs ((default_args [''scene.py''])\<lparr>fail_on_warn := False\<rparr>)"
proof -
  have l1: "lint_file etc_fs ''scene.py'' DEFAULT_DENY_IMPORTS ''/project'' ''/artifacts'' =
     Inr [mk_finding ''scene.py'' 1 0 ERROR ''FS001'' (fs_msg ''/etc/passwd'')]"
    by code_simp
  have l2: "lint_paths etc_fs DEFAULT_DENY_IMPORTS ''/project'' ''/artifacts'' [''scene.py''] [] =
     Inr [mk_finding ''scene.py'' 1 0 ERROR ''FS001'' (fs_msg ''/etc/passwd'')]"
    by code_simp
  from C9_only_errors[where fs = etc_fs and p = "''scene.py''" and deny = DEFAULT_DENY_IMPORTS
      and proot = "''/project''" and aroot = "''/artifacts''" and ps = "[''scene.py'']"
      and args = "default_args [''scene.py'']"
      and fnd = "[mk_finding ''scene.py'' 1 0 ERROR ''FS001'' (fs_msg ''/etc/passwd'')]"
      and collected = "[mk_finding ''scene.py'' 1 0 ERROR ''FS001'' (fs_msg ''/etc/passwd'')]"]
    l1 l2
  show ?thesis by simp
qed

text \<open>
  C10. For every call with fewer than two positional arguments, whatever its keyword
  arguments, no \<open>FS001\<close> finding is added at that call: a mode given by keyword is never read,
  and with no positional argument the write-path rule is not entered.
\<close>

theorem C10_keyword_arguments:
  assumes "length args < 2"
  shows "filter (\<lambda>f. code f = ''FS001'') (emitted (Call l c func args kws) v) = []"
proof -
  from assms have "literal_mode args = None"
    by (cases args) (auto simp: literal_mode_def split: list.splits)
  then show ?thesis by (intro no_fs001_emitted) blast
qed

text \<open>
  \<^verbatim>\<open>open("/etc/passwd", mode="w")\<close> and \<^verbatim>\<open>open(file="/etc/passwd", mode="w")\<close>.
\<close>

theorem C10_keyword_arguments_witness:
  "filter (\<lambda>f. code f = ''FS001'') (emitted open_mode_keyword default_visitor) = []
   \<and> filter (\<lambda>f. code f = ''FS001'') (emitted open_file_keyword default_visitor) = []"
proof -
  have h1: "length [Constant (CStr ''/etc/passwd'')] < 2" by simp
  have h2: "length ([] :: node list) < 2" by simp
  from C10_keyword_arguments[OF h1] C10_keyword_arguments[OF h2] show ?thesis
    by (simp add: open_mode_keyword_def open_file_keyword_def)
qed

end
